theory Spec2Isabelle
  imports Main "HOL-Library.AList"
begin

section \<open>Connect Four server: the game object\<close>

text \<open>
  The class \<open>Connect4Game\<close> of \<open>serv.py\<close>. The board is a list of six rows of seven
  integers (0 empty, otherwise the number of the player who dropped the piece), row 0 at
  the top and row 5 at the floor. \<open>players\<close> is a Python dict from player number to
  player id; it is kept as an association list in insertion order, because
  \<open>handle_move\<close> and \<open>register_player\<close> iterate over it. \<open>winner\<close> is \<open>None\<close>
  or a player number.
\<close>

type_synonym board = "int list list"

record Connect4Game =
  game_id :: string
  board :: board
  current_player :: int
  players :: "(int \<times> string) list"
  game_over :: bool
  winner :: "int option"
  max_players :: int

definition Connect4Game_init :: "string \<Rightarrow> Connect4Game" where
  "Connect4Game_init gid =
     \<lparr>game_id = gid,
      board = replicate 6 (replicate 7 0),
      current_player = 1,
      players = [],
      game_over = False,
      winner = None,
      max_players = 2\<rparr>"

text \<open>
  Every board the program builds has six rows of seven cells: the constructor makes one
  and \<open>make_move\<close> only assigns single cells. Reads and writes at \<open>row < 6\<close>,
  \<open>col < 7\<close> are then in range, as they are in the Python.
\<close>

definition wf_board :: "board \<Rightarrow> bool" where
  "wf_board b \<longleftrightarrow> length b = 6 \<and> list_all (\<lambda>r. length r = 7) b"

text \<open>\<open>self.board[row][col]\<close> and \<open>self.board[row][col] = v\<close>.\<close>

definition cell :: "board \<Rightarrow> nat \<Rightarrow> nat \<Rightarrow> int" where
  "cell b row col = b ! row ! col"

definition set_cell :: "board \<Rightarrow> nat \<Rightarrow> nat \<Rightarrow> int \<Rightarrow> board" where
  "set_cell b row col v = b[row := (b ! row)[col := v]]"

subsection \<open>check_winner\<close>

text \<open>
  Each \<open>for\<close> loop returns \<open>True\<close> at the first window of four equal to \<open>player\<close>
  (\<open>list_ex\<close> over the range), Python's \<open>all\<close> over \<open>range(4)\<close> is \<open>list_all\<close>.
  The third loop nest tests both diagonals of a window in one iteration.
\<close>

definition horizontal_win :: "board \<Rightarrow> int \<Rightarrow> bool" where
  "horizontal_win b player =
     list_ex (\<lambda>row. list_ex (\<lambda>col.
       list_all (\<lambda>i. cell b row (col + i) = player) [0..<4]) [0..<4]) [0..<6]"

definition vertical_win :: "board \<Rightarrow> int \<Rightarrow> bool" where
  "vertical_win b player =
     list_ex (\<lambda>col. list_ex (\<lambda>row.
       list_all (\<lambda>i. cell b (row + i) col = player) [0..<4]) [0..<3]) [0..<7]"

definition diagonal_win :: "board \<Rightarrow> int \<Rightarrow> bool" where
  "diagonal_win b player =
     list_ex (\<lambda>row. list_ex (\<lambda>col.
       list_all (\<lambda>i. cell b (row + i) (col + i) = player) [0..<4] \<or>
       list_all (\<lambda>i. cell b (row + i) (col + 3 - i) = player) [0..<4]) [0..<4]) [0..<3]"

definition check_winner :: "board \<Rightarrow> int \<Rightarrow> bool" where
  "check_winner b player \<longleftrightarrow>
     horizontal_win b player \<or> vertical_win b player \<or> diagonal_win b player"

subsection \<open>make_move\<close>

text \<open>
  The loop \<open>for row in range(5, -1, -1)\<close> stops at the first row, from the floor
  upwards, whose cell in the column is 0.
\<close>

fun find_empty_row :: "board \<Rightarrow> nat \<Rightarrow> nat list \<Rightarrow> nat option" where
  "find_empty_row b col [] = None"
| "find_empty_row b col (row # rows) =
     (if cell b row col = 0 then Some row else find_empty_row b col rows)"

definition rows_bottom_up :: "nat list" where
  "rows_bottom_up = [5, 4, 3, 2, 1, 0]"

text \<open>
  \<open>make_move\<close> returns the pair \<open>(success, message)\<close> and mutates the game; the model
  returns the game after the call as a third component. Neither \<open>game_over\<close> nor the
  number of empty cells is read anywhere, and \<open>current_player\<close> is assigned on every
  successful move.
\<close>

definition make_move :: "Connect4Game \<Rightarrow> int \<Rightarrow> int \<Rightarrow> Connect4Game \<times> bool \<times> string" where
  "make_move g player column =
     (if column < 0 \<or> column \<ge> 7 then (g, False, ''Invalid column'')
      else
        (case find_empty_row (board g) (nat column) rows_bottom_up of
           None \<Rightarrow> (g, False, ''Column is full'')
         | Some row \<Rightarrow>
             let g1 = g\<lparr>board := set_cell (board g) row (nat column) player\<rparr>;
                 g2 = (if check_winner (board g1) player
                       then g1\<lparr>game_over := True, winner := Some player\<rparr>
                       else g1)
             in (g2\<lparr>current_player := 3 - player\<rparr>, True, ''Move successful'')))"

section \<open>Connect Four server: sessions and routing\<close>

text \<open>
  Messages are the dicts passed to \<open>json.dumps\<close>, kept as association lists in the
  order the source writes the keys.
\<close>

datatype json = JNull | JBool bool | JInt int | JStr string | JBoard board

type_synonym msg = "(string \<times> json) list"

text \<open>A connection handle; the transport behind it is outside the repository.\<close>

type_synonym websocket = nat

datatype py_error = KeyError | ValueError

text \<open>
  \<open>games\<close> and \<open>player_connections\<close> are dicts in insertion order
  (\<open>AList.update\<close> overwrites in place or appends, as a dict assignment does).
  \<open>game_waiting\<close> is a reference to a game object that is also stored in \<open>games\<close>
  under its \<open>game_id\<close>, and the object is mutated through either reference; the model
  keeps the objects in \<open>games\<close> and stores the key of the waiting one.
\<close>

record Connect4Server =
  games :: "(string \<times> Connect4Game) list"
  player_connections :: "(string \<times> websocket) list"
  game_waiting :: "string option"

definition Connect4Server_init :: Connect4Server where
  "Connect4Server_init = \<lparr>games = [], player_connections = [], game_waiting = None\<rparr>"

definition winner_json :: "int option \<Rightarrow> json" where
  "winner_json w = (case w of None \<Rightarrow> JNull | Some n \<Rightarrow> JInt n)"

definition game_status :: "string \<Rightarrow> int \<Rightarrow> string \<Rightarrow> msg" where
  "game_status status player_number gid =
     [(''type'', JStr ''game_status''),
      (''status'', JStr status),
      (''player_number'', JInt player_number),
      (''game_id'', JStr gid)]"

definition game_update :: "Connect4Game \<Rightarrow> msg" where
  "game_update g =
     [(''type'', JStr ''game_update''),
      (''board'', JBoard (board g)),
      (''current_player'', JInt (current_player g)),
      (''game_over'', JBool (game_over g)),
      (''winner'', winner_json (winner g))]"

text \<open>
  The loops \<open>for n, p_id in game.players.items(): self.player_connections[p_id].send(...)\<close>:
  the messages sent so far, and \<open>KeyError\<close> at the first player id that has no
  connection entry (the entry is deleted when that player's connection ends). A send on
  a registered handle is taken to succeed.
\<close>

fun send_all ::
  "(string \<times> websocket) list \<Rightarrow> (int \<times> string) list \<Rightarrow> (int \<Rightarrow> msg) \<Rightarrow>
     (websocket \<times> msg) list \<times> py_error option" where
  "send_all conns [] mk = ([], None)"
| "send_all conns ((n, pid) # ps) mk =
     (case map_of conns pid of
        None \<Rightarrow> ([], Some KeyError)
      | Some sock \<Rightarrow>
          (case send_all conns ps mk of (out, e) \<Rightarrow> ((sock, mk n) # out, e)))"

subsection \<open>register_player\<close>

text \<open>
  The two \<open>uuid.uuid4()\<close> values are inputs: \<open>player_id\<close>, and \<open>new_game_id\<close>
  which is drawn only when no game is waiting. The result is the server after the call,
  the messages sent, and the returned player id or the exception raised. A game object
  has no \<open>__bool__\<close> or \<open>__len__\<close>, so \<open>not self.game_waiting\<close> holds exactly
  for \<open>None\<close>.
\<close>

definition register_player ::
  "Connect4Server \<Rightarrow> websocket \<Rightarrow> string \<Rightarrow> string \<Rightarrow>
     Connect4Server \<times> (websocket \<times> msg) list \<times> (py_error + string)" where
  "register_player srv sock player_id new_game_id =
     (let srv1 = srv\<lparr>player_connections :=
                       AList.update player_id sock (player_connections srv)\<rparr>
      in case game_waiting srv1 of
           None \<Rightarrow>
             let game = (Connect4Game_init new_game_id)
                          \<lparr>players := AList.update 1 player_id []\<rparr>;
                 srv2 = srv1\<lparr>games := AList.update new_game_id game (games srv1),
                             game_waiting := Some new_game_id\<rparr>
             in (srv2, [(sock, game_status ''waiting'' 1 new_game_id)], Inr player_id)
         | Some w \<Rightarrow>
             (case map_of (games srv1) w of
                None \<Rightarrow> (srv1, [], Inl KeyError)
              | Some game0 \<Rightarrow>
                  let game = game0\<lparr>players := AList.update 2 player_id (players game0)\<rparr>;
                      srv2 = srv1\<lparr>games := AList.update w game (games srv1)\<rparr>
                  in (case send_all (player_connections srv2) (players game)
                             (\<lambda>n. game_status ''started'' n (game_id game)) of
                        (out, Some e) \<Rightarrow> (srv2, out, Inl e)
                      | (out, None) \<Rightarrow>
                          (srv2\<lparr>game_waiting := None\<rparr>, out, Inr player_id))))"

subsection \<open>handle_move\<close>

text \<open>
  \<open>for game in self.games.values(): if player_id in game.players.values()\<close>: the first
  game, in insertion order, one of whose seats holds the player id.
\<close>

fun find_game ::
  "(string \<times> Connect4Game) list \<Rightarrow> string \<Rightarrow> (string \<times> Connect4Game) option" where
  "find_game [] pid = None"
| "find_game ((gid, g) # gs) pid =
     (if pid \<in> set (map snd (players g)) then Some (gid, g) else find_game gs pid)"

text \<open>
  \<open>list(players.keys())[list(players.values()).index(player_id)]\<close>: the key of the first
  entry whose value is the player id; \<open>index\<close> raises \<open>ValueError\<close> when there is none.
\<close>

fun player_number_of :: "(int \<times> string) list \<Rightarrow> string \<Rightarrow> int option" where
  "player_number_of [] pid = None"
| "player_number_of ((n, p) # ps) pid =
     (if p = pid then Some n else player_number_of ps pid)"

definition move_response :: "bool \<Rightarrow> string \<Rightarrow> Connect4Game \<Rightarrow> msg" where
  "move_response success message g =
     [(''success'', JBool success),
      (''message'', JStr message),
      (''board'', JBoard (board g)),
      (''current_player'', JInt (current_player g)),
      (''game_over'', JBool (game_over g)),
      (''winner'', winner_json (winner g))]"

definition short_response :: "string \<Rightarrow> msg" where
  "short_response message = [(''success'', JBool False), (''message'', JStr message)]"

text \<open>
  \<open>column\<close> is \<open>data['column']\<close> of a decoded \<open>move\<close> message carrying an integer.
  The result is the server after the call, the broadcast messages sent, and the response
  dict returned to the requester or the exception raised (the caller logs it and sends
  no response). Only the turn is validated before \<open>make_move\<close>.
\<close>

definition handle_move ::
  "Connect4Server \<Rightarrow> string \<Rightarrow> int \<Rightarrow>
     Connect4Server \<times> (websocket \<times> msg) list \<times> (py_error + msg)" where
  "handle_move srv player_id column =
     (case find_game (games srv) player_id of
        None \<Rightarrow> (srv, [], Inr (short_response ''Game not found''))
      | Some (gid, game) \<Rightarrow>
          (case player_number_of (players game) player_id of
             None \<Rightarrow> (srv, [], Inl ValueError)
           | Some player_number \<Rightarrow>
               if current_player game \<noteq> player_number
               then (srv, [], Inr (short_response ''Not your turn''))
               else
                 (case make_move game player_number column of
                    (game', success, message) \<Rightarrow>
                      let srv' = srv\<lparr>games := AList.update gid game' (games srv)\<rparr>
                      in if success
                         then (case send_all (player_connections srv') (players game')
                                      (\<lambda>n. game_update game') of
                                 (out, Some e) \<Rightarrow> (srv', out, Inl e)
                               | (out, None) \<Rightarrow>
                                   (srv', out, Inr (move_response success message game')))
                         else (srv', [], Inr (move_response success message game')))))"

definition srv_of :: "Connect4Server \<times> 'a \<times> 'b \<Rightarrow> Connect4Server" where
  "srv_of r = fst r"

definition ret_of :: "Connect4Server \<times> 'a \<times> 'b \<Rightarrow> 'b" where
  "ret_of r = snd (snd r)"

text \<open>
  A run of move submissions, each handled to completion before the next; a submission
  that ends in an exception keeps the mutations made before it.
\<close>

fun handle_moves :: "Connect4Server \<Rightarrow> (string \<times> int) list \<Rightarrow> Connect4Server" where
  "handle_moves srv [] = srv"
| "handle_moves srv ((pid, col) # ms) = handle_moves (srv_of (handle_move srv pid col)) ms"

text \<open>The game object stored under a game id.\<close>

definition game_of :: "Connect4Server \<Rightarrow> string \<Rightarrow> Connect4Game option" where
  "game_of srv gid = map_of (games srv) gid"

text \<open>
  What holds of every server state the program builds: dict keys are distinct, every
  game is stored under its own id, boards are 6 by 7, seats are numbered 1 and 2, and
  the waiting reference points into \<open>games\<close>.
\<close>

definition wf_game :: "Connect4Game \<Rightarrow> bool" where
  "wf_game g \<longleftrightarrow> wf_board (board g) \<and> list_all (\<lambda>(n, p). n = 1 \<or> n = 2) (players g)"

definition wf_server :: "Connect4Server \<Rightarrow> bool" where
  "wf_server srv \<longleftrightarrow>
     distinct (map fst (games srv)) \<and>
     list_all (\<lambda>(gid, g). wf_game g \<and> game_id g = gid) (games srv) \<and>
     (case game_waiting srv of None \<Rightarrow> True | Some w \<Rightarrow> w \<in> set (map fst (games srv)))"

subsection \<open>Connection teardown and reachable states\<close>

text \<open>
  The \<open>finally\<close> block of \<open>handle_websocket\<close> deletes the player's entry from
  \<open>player_connections\<close> when the connection ends; games are never removed. A reachable
  state is one built from the fresh server by joins, move submissions and teardowns.
\<close>

definition disconnect :: "Connect4Server \<Rightarrow> string \<Rightarrow> Connect4Server" where
  "disconnect srv player_id =
     srv\<lparr>player_connections := AList.delete player_id (player_connections srv)\<rparr>"

inductive reachable :: "Connect4Server \<Rightarrow> bool" where
  start: "reachable Connect4Server_init"
| join: "reachable srv \<Longrightarrow> reachable (srv_of (register_player srv sock pid gid))"
| move: "reachable srv \<Longrightarrow> reachable (srv_of (handle_move srv pid col))"
| leave: "reachable srv \<Longrightarrow> reachable (disconnect srv pid)"

section \<open>Notions used to state the properties\<close>

text \<open>A board with no empty cell.\<close>

definition board_full :: "board \<Rightarrow> bool" where
  "board_full b \<longleftrightarrow> list_all (\<lambda>r. list_all (\<lambda>c. cell b r c \<noteq> 0) [0..<7]) [0..<6]"

text \<open>
  Four in a row as the specification words it: four consecutive cells, all on the 6 by 7
  board and all holding the player's marker, along a horizontal line, a vertical line or
  one of the two diagonals. A line starts at row \<open>r\<close>, column \<open>c\<close> and advances by
  \<open>(dr, dc)\<close>.
\<close>

definition in_board :: "int \<Rightarrow> int \<Rightarrow> bool" where
  "in_board r c \<longleftrightarrow> 0 \<le> r \<and> r < 6 \<and> 0 \<le> c \<and> c < 7"

definition line_of_four :: "board \<Rightarrow> int \<Rightarrow> int \<Rightarrow> int \<Rightarrow> int \<Rightarrow> int \<Rightarrow> bool" where
  "line_of_four b p r c dr dc \<longleftrightarrow>
     (\<forall>i<4. in_board (r + int i * dr) (c + int i * dc) \<and>
             cell b (nat (r + int i * dr)) (nat (c + int i * dc)) = p)"

definition four_in_line :: "board \<Rightarrow> int \<Rightarrow> bool" where
  "four_in_line b p \<longleftrightarrow>
     (\<exists>r c. line_of_four b p r c 0 1 \<or> line_of_four b p r c 1 0 \<or>
            line_of_four b p r c 1 1 \<or> line_of_four b p r c 1 (- 1))"

text \<open>
  The six fields of a full move response, and whether a response carries them all.
\<close>

definition all_fields :: "string list" where
  "all_fields =
     [''success'', ''message'', ''board'', ''current_player'', ''game_over'', ''winner'']"

definition has_all_fields :: "msg \<Rightarrow> bool" where
  "has_all_fields m \<longleftrightarrow> list_all (\<lambda>k. k \<in> set (map fst m)) all_fields"

text \<open>The requester is seated in a game and that seat is the game's current player.\<close>

definition on_turn :: "Connect4Server \<Rightarrow> string \<Rightarrow> bool" where
  "on_turn srv pid \<longleftrightarrow>
     (case find_game (games srv) pid of
        None \<Rightarrow> False
      | Some (gid, g) \<Rightarrow> player_number_of (players g) pid = Some (current_player g))"



text \<open>
  From one state of a game to a later one: the seats are the same, and a cell that
  differs was empty and now holds a seat number of the game.
\<close>

definition cells_only_filled :: "Connect4Game \<Rightarrow> Connect4Game \<Rightarrow> bool" where
  "cells_only_filled g g' \<longleftrightarrow>
     players g' = players g \<and>
     (\<forall>r c. cell (board g') r c \<noteq> cell (board g) r c \<longrightarrow>
        cell (board g) r c = 0 \<and> cell (board g') r c \<in> fst ` set (players g))"

section \<open>Example states\<close>

text \<open>
  Two players join an empty server. In the first line of play seat 1 fills columns 0, 1, 2
  of the floor while seat 2 stacks column 6, so that column 3 wins for seat 1. The second
  line of play fills 41 cells with no four in a row; the last empty cell is the top of
  column 5, seat 2 to move.
\<close>

definition ex_srv1 :: Connect4Server where
  "ex_srv1 = srv_of (register_player Connect4Server_init 1 ''p1'' ''g1'')"

definition ex_srv2 :: Connect4Server where
  "ex_srv2 = srv_of (register_player ex_srv1 2 ''p2'' ''g2'')"

definition ex_moves_pre_win :: "(string \<times> int) list" where
  "ex_moves_pre_win =
     [(''p1'', 0), (''p2'', 6), (''p1'', 1), (''p2'', 6), (''p1'', 2), (''p2'', 6)]"

definition ex_game_pre_win :: Connect4Game where
  "ex_game_pre_win =
     \<lparr>game_id = ''g1'',
      board =
      [[0, 0, 0, 0, 0, 0, 0],
       [0, 0, 0, 0, 0, 0, 0],
       [0, 0, 0, 0, 0, 0, 0],
       [0, 0, 0, 0, 0, 0, 2],
       [0, 0, 0, 0, 0, 0, 2],
       [1, 1, 1, 0, 0, 0, 2]],
      current_player = 1,
      players = [(1, ''p1''), (2, ''p2'')],
      game_over = False,
      winner = None,
      max_players = 2\<rparr>"

definition ex_moves_pre_full :: "(string \<times> int) list" where
  "ex_moves_pre_full =
      [(''p1'', 1), (''p2'', 0), (''p1'', 2), (''p2'', 0), (''p1'', 4), (''p2'', 0),
       (''p1'', 0), (''p2'', 0), (''p1'', 4), (''p2'', 0), (''p1'', 5), (''p2'', 1),
       (''p1'', 1), (''p2'', 1), (''p1'', 1), (''p2'', 2), (''p1'', 1), (''p2'', 3),
       (''p1'', 2), (''p2'', 2), (''p1'', 2), (''p2'', 2), (''p1'', 3), (''p2'', 3),
       (''p1'', 5), (''p2'', 3), (''p1'', 6), (''p2'', 3), (''p1'', 3), (''p2'', 4),
       (''p1'', 4), (''p2'', 5), (''p1'', 5), (''p2'', 4), (''p1'', 5), (''p2'', 6),
       (''p1'', 6), (''p2'', 4), (''p1'', 6), (''p2'', 6), (''p1'', 6)]"

definition ex_game_pre_full :: Connect4Game where
  "ex_game_pre_full =
     \<lparr>game_id = ''g1'',
      board =
      [[2, 1, 2, 1, 2, 0, 1],
       [2, 1, 1, 2, 2, 1, 2],
       [1, 2, 2, 2, 1, 1, 1],
       [2, 1, 1, 2, 2, 2, 1],
       [2, 2, 2, 1, 1, 1, 2],
       [2, 1, 1, 2, 1, 1, 1]],
      current_player = 2,
      players = [(1, ''p1''), (2, ''p2'')],
      game_over = False,
      winner = None,
      max_players = 2\<rparr>"

definition ex_game_start :: Connect4Game where
  "ex_game_start = (Connect4Game_init ''g1'')\<lparr>players := [(1, ''p1''), (2, ''p2'')]\<rparr>"

definition ex_srv_pre_win :: Connect4Server where
  "ex_srv_pre_win = handle_moves ex_srv2 ex_moves_pre_win"

definition ex_srv_won :: Connect4Server where
  "ex_srv_won = srv_of (handle_move ex_srv_pre_win ''p1'' 3)"

text \<open>The first player moves before anyone else has joined.\<close>

definition ex_srv_moved_alone :: Connect4Server where
  "ex_srv_moved_alone = srv_of (handle_move ex_srv1 ''p1'' 0)"

definition ex_game_waiting :: Connect4Game where
  "ex_game_waiting = (Connect4Game_init ''g1'')\<lparr>players := [(1, ''p1'')]\<rparr>"


section \<open>Properties of the game object\<close>

lemma find_empty_row_None:
  "find_empty_row b col rows = None \<longleftrightarrow> (\<forall>q \<in> set rows. cell b q col \<noteq> 0)"
  by (induction rows) auto

lemma lt_6_cases: "(q::nat) < 6 \<longleftrightarrow> q = 0 \<or> q = 1 \<or> q = 2 \<or> q = 3 \<or> q = 4 \<or> q = 5"
  by arith

lemma find_empty_row_lowest:
  assumes "find_empty_row b col rows_bottom_up = Some r"
  shows "r < 6 \<and> cell b r col = 0 \<and> (\<forall>q. r < q \<and> q < 6 \<longrightarrow> cell b q col \<noteq> 0)"
  using assms
  by (auto simp: rows_bottom_up_def lt_6_cases split: if_splits)

lemma cell_set_cell_same:
  "wf_board b \<Longrightarrow> r < 6 \<Longrightarrow> c < 7 \<Longrightarrow> cell (set_cell b r c v) r c = v"
  by (simp add: wf_board_def cell_def set_cell_def list_all_length)

lemma cell_set_cell_other:
  "(r', c') \<noteq> (r, c) \<Longrightarrow> cell (set_cell b r c v) r' c' = cell b r' c'"
  by (cases "r < length b") (auto simp: cell_def set_cell_def nth_list_update list_update_beyond)

lemma wf_board_set_cell: "wf_board b \<Longrightarrow> wf_board (set_cell b r c v)"
  by (cases "r < length b")
    (auto simp: wf_board_def set_cell_def list_all_length nth_list_update list_update_beyond)

lemma make_move_success:
  assumes "make_move g p col = (g', True, m)"
  shows "\<exists>r. 0 \<le> col \<and> col < 7 \<and> m = ''Move successful'' \<and>
           find_empty_row (board g) (nat col) rows_bottom_up = Some r \<and>
           board g' = set_cell (board g) r (nat col) p \<and>
           current_player g' = 3 - p \<and>
           game_id g' = game_id g \<and> players g' = players g \<and>
           max_players g' = max_players g \<and>
           (if check_winner (board g') p
            then game_over g' \<and> winner g' = Some p
            else game_over g' = game_over g \<and> winner g' = winner g)"
  using assms
  by (auto simp: make_move_def Let_def split: if_splits option.splits)

lemma make_move_failure:
  assumes "make_move g p col = (g', False, m)"
  shows "g' = g \<and> (m = ''Invalid column'' \<or> m = ''Column is full'')"
  using assms
  by (auto simp: make_move_def Let_def split: if_splits option.splits)

lemma make_move_full_column:
  assumes "0 \<le> col" "col < 7" "\<forall>r<6. cell (board g) r (nat col) \<noteq> 0"
  shows "make_move g p col = (g, False, ''Column is full'')"
proof -
  have "find_empty_row (board g) (nat col) rows_bottom_up = None"
    using assms(3) by (simp add: find_empty_row_None rows_bottom_up_def)
  with assms(1,2) show ?thesis by (simp add: make_move_def)
qed

lemma make_move_open_column:
  assumes "0 \<le> col" "col < 7" "r < 6" "cell (board g) r (nat col) = 0"
  shows "\<exists>g'. make_move g p col = (g', True, ''Move successful'')"
proof -
  have "find_empty_row (board g) (nat col) rows_bottom_up \<noteq> None"
    using assms(3,4) by (auto simp: find_empty_row_None rows_bottom_up_def lt_6_cases)
  then obtain q where "find_empty_row (board g) (nat col) rows_bottom_up = Some q" by blast
  with assms(1,2) show ?thesis by (simp add: make_move_def Let_def)
qed

text \<open>The example games are the ones the server holds after the example runs.\<close>

lemma ex_game_pre_win_reached:
  "game_of (handle_moves ex_srv2 ex_moves_pre_win) ''g1'' = Some ex_game_pre_win"
  by code_simp

lemma ex_game_pre_full_reached:
  "game_of (handle_moves ex_srv2 ex_moves_pre_full) ''g1'' = Some ex_game_pre_full"
  by code_simp

section \<open>Claims about \<open>make_move\<close>\<close>

text \<open>
  Claim C4. For an in-range column with at least one empty cell, \<open>make_move\<close> succeeds
  and puts the player's number in the lowest empty row of that column (the greatest row
  index whose cell is 0; row 5 is the floor). For an in-range column with no empty cell
  it returns \<open>(False, "Column is full")\<close> and leaves the game, and so the board,
  unchanged.
\<close>

theorem make_move_gravity:
  assumes "wf_board (board g)" and "0 \<le> column" and "column < 7"
  shows "((\<exists>r<6. cell (board g) r (nat column) = 0) \<longrightarrow>
            (\<exists>g' r. make_move g player column = (g', True, ''Move successful'') \<and>
               r < 6 \<and> cell (board g) r (nat column) = 0 \<and>
               (\<forall>q. r < q \<and> q < 6 \<longrightarrow> cell (board g) q (nat column) \<noteq> 0) \<and>
               board g' = set_cell (board g) r (nat column) player \<and>
               cell (board g') r (nat column) = player)) \<and>
         ((\<forall>r<6. cell (board g) r (nat column) \<noteq> 0) \<longrightarrow>
            make_move g player column = (g, False, ''Column is full''))"
proof (intro conjI impI)
  assume "\<exists>r<6. cell (board g) r (nat column) = 0"
  then obtain r0 where "r0 < 6" "cell (board g) r0 (nat column) = 0" by blast
  from make_move_open_column [OF assms(2,3) this]
  obtain g' where mv: "make_move g player column = (g', True, ''Move successful'')" by blast
  from make_move_success [OF mv] obtain r
    where row: "find_empty_row (board g) (nat column) rows_bottom_up = Some r"
      and brd: "board g' = set_cell (board g) r (nat column) player"
    by blast
  note low = find_empty_row_lowest [OF row]
  have "cell (board g') r (nat column) = player"
    using assms low brd by (simp add: cell_set_cell_same)
  with mv low brd show "\<exists>g' r. make_move g player column = (g', True, ''Move successful'') \<and>
               r < 6 \<and> cell (board g) r (nat column) = 0 \<and>
               (\<forall>q. r < q \<and> q < 6 \<longrightarrow> cell (board g) q (nat column) \<noteq> 0) \<and>
               board g' = set_cell (board g) r (nat column) player \<and>
               cell (board g') r (nat column) = player"
    by blast
next
  assume "\<forall>r<6. cell (board g) r (nat column) \<noteq> 0"
  with assms(2,3) show "make_move g player column = (g, False, ''Column is full'')"
    by (rule make_move_full_column)
qed

theorem make_move_gravity_witness:
  "wf_board (board ex_game_pre_win) \<and> wf_board (board ex_game_pre_full) \<and>
   (\<exists>r<6. cell (board ex_game_pre_win) r (nat 3) = 0) \<and>
   (\<exists>g' r. make_move ex_game_pre_win 1 3 = (g', True, ''Move successful'') \<and>
        r < 6 \<and> cell (board ex_game_pre_win) r (nat 3) = 0 \<and>
        (\<forall>q. r < q \<and> q < 6 \<longrightarrow> cell (board ex_game_pre_win) q (nat 3) \<noteq> 0) \<and>
        board g' = set_cell (board ex_game_pre_win) r (nat 3) 1 \<and>
        cell (board g') r (nat 3) = 1) \<and>
   list_all (\<lambda>r. cell (board ex_game_pre_full) r (nat 0) \<noteq> 0) [0..<6] \<and>
   make_move ex_game_pre_full 2 0 = (ex_game_pre_full, False, ''Column is full'')"
proof -
  have wf1: "wf_board (board ex_game_pre_win)" by code_simp
  have wf2: "wf_board (board ex_game_pre_full)" by code_simp
  have "cell (board ex_game_pre_win) 5 (nat 3) = 0" by code_simp
  then have open_col: "\<exists>r<6. cell (board ex_game_pre_win) r (nat 3) = 0"
    by (intro exI [of _ 5]) simp
  have full_list: "list_all (\<lambda>r. cell (board ex_game_pre_full) r (nat 0) \<noteq> 0) [0..<6]"
    by code_simp
  then have full_col: "\<forall>r<6. cell (board ex_game_pre_full) r (nat 0) \<noteq> 0"
    by (simp add: list_all_iff)
  from make_move_gravity [OF wf1, of 3 1] open_col
  have a: "\<exists>g' r. make_move ex_game_pre_win 1 3 = (g', True, ''Move successful'') \<and>
        r < 6 \<and> cell (board ex_game_pre_win) r (nat 3) = 0 \<and>
        (\<forall>q. r < q \<and> q < 6 \<longrightarrow> cell (board ex_game_pre_win) q (nat 3) \<noteq> 0) \<and>
        board g' = set_cell (board ex_game_pre_win) r (nat 3) 1 \<and>
        cell (board g') r (nat 3) = 1"
    by simp
  from make_move_gravity [OF wf2, of 0 2] full_col
  have b: "make_move ex_game_pre_full 2 0 = (ex_game_pre_full, False, ''Column is full'')"
    by simp
  from wf1 wf2 open_col a full_list b show ?thesis by blast
qed

text \<open>
  Claim C10. A successful \<open>make_move\<close> by a seat (a nonzero player number) changes
  exactly one cell: the lowest empty row of the chosen column goes from 0 to the player's
  number. Every other cell, the \<open>game_id\<close> and the \<open>players\<close> dict are as before.
\<close>

theorem make_move_frame:
  assumes "wf_board (board g)" and "player \<noteq> 0"
    and "make_move g player column = (g', True, m)"
  shows "\<exists>r<6. 0 \<le> column \<and> column < 7 \<and>
           cell (board g) r (nat column) = 0 \<and>
           (\<forall>q. r < q \<and> q < 6 \<longrightarrow> cell (board g) q (nat column) \<noteq> 0) \<and>
           cell (board g') r (nat column) = player \<and>
           cell (board g') r (nat column) \<noteq> cell (board g) r (nat column) \<and>
           (\<forall>r' c'. (r', c') \<noteq> (r, nat column) \<longrightarrow>
                cell (board g') r' c' = cell (board g) r' c') \<and>
           game_id g' = game_id g \<and> players g' = players g"
proof -
  from make_move_success [OF assms(3)] obtain r
    where rng: "0 \<le> column" "column < 7"
      and row: "find_empty_row (board g) (nat column) rows_bottom_up = Some r"
      and brd: "board g' = set_cell (board g) r (nat column) player"
      and frame: "game_id g' = game_id g" "players g' = players g"
    by blast
  note low = find_empty_row_lowest [OF row]
  have new: "cell (board g') r (nat column) = player"
    using assms(1) rng low brd by (simp add: cell_set_cell_same)
  have others: "\<forall>r' c'. (r', c') \<noteq> (r, nat column) \<longrightarrow>
                  cell (board g') r' c' = cell (board g) r' c'"
    using brd by (simp add: cell_set_cell_other)
  from rng low new others frame assms(2) show ?thesis by auto
qed

theorem make_move_frame_witness:
  "wf_board (board ex_game_pre_win) \<and> (1::int) \<noteq> 0 \<and>
   make_move ex_game_pre_win 1 3 =
     (fst (make_move ex_game_pre_win 1 3), True, ''Move successful'') \<and>
   (\<exists>r<6. cell (board ex_game_pre_win) r (nat 3) = 0 \<and>
      cell (board (fst (make_move ex_game_pre_win 1 3))) r (nat 3) = 1 \<and>
      (\<forall>r' c'. (r', c') \<noteq> (r, nat 3) \<longrightarrow>
           cell (board (fst (make_move ex_game_pre_win 1 3))) r' c' =
           cell (board ex_game_pre_win) r' c') \<and>
      game_id (fst (make_move ex_game_pre_win 1 3)) = game_id ex_game_pre_win \<and>
      players (fst (make_move ex_game_pre_win 1 3)) = players ex_game_pre_win)"
proof -
  have wf: "wf_board (board ex_game_pre_win)" by code_simp
  have nz: "(1::int) \<noteq> 0" by simp
  have mv: "make_move ex_game_pre_win 1 3 =
              (fst (make_move ex_game_pre_win 1 3), True, ''Move successful'')"
    by code_simp
  from make_move_frame [OF wf nz mv] wf nz mv show ?thesis by blast
qed

text \<open>
  Claim C2, as stated, fails: on a winning move the turn is not left unchanged. In the
  example seat 1 completes the floor row; \<open>current_player\<close> was 1 and is 2 afterwards.
\<close>

theorem turn_kept_on_win_counterexample:
  "fst (snd (make_move ex_game_pre_win 1 3)) \<and>
   check_winner (board (fst (make_move ex_game_pre_win 1 3))) 1 \<and>
   winner (fst (make_move ex_game_pre_win 1 3)) = Some 1 \<and>
   current_player ex_game_pre_win = 1 \<and>
   current_player (fst (make_move ex_game_pre_win 1 3)) = 2"
  by code_simp

text \<open>
  Claim C2, amended. Every successful move sets \<open>current_player\<close> to the other seat,
  \<open>3 - player\<close>, whether or not it wins; a successful move whose placement makes four
  in a row for the mover also sets \<open>game_over\<close> and sets \<open>winner\<close> to the mover.
\<close>

theorem make_move_win_and_turn:
  assumes "make_move g player column = (g', True, m)"
  shows "current_player g' = 3 - player \<and>
         (check_winner (board g') player \<longrightarrow> game_over g' \<and> winner g' = Some player)"
  using make_move_success [OF assms] by (auto split: if_splits)

theorem make_move_win_and_turn_witness:
  "make_move ex_game_pre_win 1 3 =
     (fst (make_move ex_game_pre_win 1 3), True, ''Move successful'') \<and>
   check_winner (board (fst (make_move ex_game_pre_win 1 3))) 1 \<and>
   current_player (fst (make_move ex_game_pre_win 1 3)) = 3 - 1 \<and>
   game_over (fst (make_move ex_game_pre_win 1 3)) \<and>
   winner (fst (make_move ex_game_pre_win 1 3)) = Some 1"
proof -
  have mv: "make_move ex_game_pre_win 1 3 =
              (fst (make_move ex_game_pre_win 1 3), True, ''Move successful'')"
    by code_simp
  have win: "check_winner (board (fst (make_move ex_game_pre_win 1 3))) 1"
    by code_simp
  from make_move_win_and_turn [OF mv] mv win show ?thesis by blast
qed

text \<open>
  Claim C3, as stated, fails: the program has no draw detection. In the example seat 2
  fills the last empty cell, no four in a row exists for either seat, and the game is
  left with \<open>game_over = False\<close> and no winner.
\<close>

theorem draw_on_full_board_counterexample:
  "fst (snd (make_move ex_game_pre_full 2 5)) \<and>
   board_full (board (fst (make_move ex_game_pre_full 2 5))) \<and>
   \<not> check_winner (board (fst (make_move ex_game_pre_full 2 5))) 2 \<and>
   \<not> check_winner (board (fst (make_move ex_game_pre_full 2 5))) 1 \<and>
   \<not> game_over (fst (make_move ex_game_pre_full 2 5)) \<and>
   winner (fst (make_move ex_game_pre_full 2 5)) = None"
  by code_simp

text \<open>
  Claim C3, amended. A successful move that does not make four in a row for the mover
  leaves \<open>game_over\<close> and \<open>winner\<close> as they were, also when it fills the last empty
  cell, and passes the turn to the other seat; once the board is full every further
  \<open>make_move\<close> is rejected and changes nothing.
\<close>

theorem make_move_no_draw:
  assumes "make_move g player column = (g', True, m)"
    and "\<not> check_winner (board g') player"
  shows "game_over g' = game_over g \<and> winner g' = winner g \<and>
         current_player g' = 3 - player \<and>
         (board_full (board g') \<longrightarrow>
            (\<forall>p c. \<exists>msg. make_move g' p c = (g', False, msg)))"
proof -
  from make_move_success [OF assms(1)] assms(2)
  have keep: "game_over g' = game_over g \<and> winner g' = winner g \<and> current_player g' = 3 - player"
    by auto
  have "\<exists>msg. make_move g' p c = (g', False, msg)" if full: "board_full (board g')" for p c
  proof (cases "0 \<le> c \<and> c < 7")
    case True
    then have "nat c < 7" by linarith
    with full have "\<forall>r<6. cell (board g') r (nat c) \<noteq> 0"
      by (simp add: board_full_def list_all_iff)
    with True show ?thesis using make_move_full_column by blast
  next
    case False
    then show ?thesis by (auto simp: make_move_def)
  qed
  with keep show ?thesis by blast
qed

theorem make_move_no_draw_witness:
  "make_move ex_game_pre_full 2 5 =
     (fst (make_move ex_game_pre_full 2 5), True, ''Move successful'') \<and>
   \<not> check_winner (board (fst (make_move ex_game_pre_full 2 5))) 2 \<and>
   board_full (board (fst (make_move ex_game_pre_full 2 5))) \<and>
   game_over (fst (make_move ex_game_pre_full 2 5)) = game_over ex_game_pre_full \<and>
   winner (fst (make_move ex_game_pre_full 2 5)) = winner ex_game_pre_full \<and>
   (\<forall>p c. \<exists>msg. make_move (fst (make_move ex_game_pre_full 2 5)) p c =
                    (fst (make_move ex_game_pre_full 2 5), False, msg))"
proof -
  have mv: "make_move ex_game_pre_full 2 5 =
              (fst (make_move ex_game_pre_full 2 5), True, ''Move successful'')"
    by code_simp
  have nowin: "\<not> check_winner (board (fst (make_move ex_game_pre_full 2 5))) 2"
    by code_simp
  have full: "board_full (board (fst (make_move ex_game_pre_full 2 5)))"
    by code_simp
  from make_move_no_draw [OF mv nowin] mv nowin full show ?thesis by blast
qed

section \<open>Win detection\<close>

lemma horizontal_win_iff:
  "horizontal_win b p \<longleftrightarrow> (\<exists>row<6. \<exists>col<4. \<forall>i<4. cell b row (col + i) = p)"
  by (simp add: horizontal_win_def list_ex_iff list_all_iff Bex_def Ball_def)

lemma vertical_win_iff:
  "vertical_win b p \<longleftrightarrow> (\<exists>col<7. \<exists>row<3. \<forall>i<4. cell b (row + i) col = p)"
  by (simp add: vertical_win_def list_ex_iff list_all_iff Bex_def Ball_def)

lemma diagonal_win_iff:
  "diagonal_win b p \<longleftrightarrow>
     (\<exists>row<3. \<exists>col<4. (\<forall>i<4. cell b (row + i) (col + i) = p) \<or>
                        (\<forall>i<4. cell b (row + i) (col + 3 - i) = p))"
  by (simp add: diagonal_win_def list_ex_iff list_all_iff Bex_def Ball_def)

lemma line_ends:
  assumes "line_of_four b p r c dr dc"
  shows "in_board r c" and "in_board (r + 3 * dr) (c + 3 * dc)"
proof -
  from assms have inb: "\<And>i. i < 4 \<Longrightarrow> in_board (r + int i * dr) (c + int i * dc)"
    unfolding line_of_four_def by blast
  from inb [of 0] show "in_board r c" by simp
  from inb [of 3] show "in_board (r + 3 * dr) (c + 3 * dc)" by simp
qed

lemma line_cells:
  assumes "line_of_four b p r c dr dc" "i < 4"
  shows "cell b (nat (r + int i * dr)) (nat (c + int i * dc)) = p"
  using assms unfolding line_of_four_def by blast

lemma horizontal_line: "horizontal_win b p \<longleftrightarrow> (\<exists>r c. line_of_four b p r c 0 1)"
proof
  assume "horizontal_win b p"
  then obtain row col where rc: "row < 6" "col < 4" and all: "\<forall>i<4. cell b row (col + i) = p"
    unfolding horizontal_win_iff by blast
  have "line_of_four b p (int row) (int col) 0 1"
    unfolding line_of_four_def in_board_def
  proof (intro allI impI)
    fix i :: nat assume "i < 4"
    moreover have "nat (int col + int i * 1) = col + i" by simp
    ultimately show "(0 \<le> int row + int i * 0 \<and> int row + int i * 0 < 6 \<and>
        0 \<le> int col + int i * 1 \<and> int col + int i * 1 < 7) \<and>
        cell b (nat (int row + int i * 0)) (nat (int col + int i * 1)) = p"
      using rc all by (simp add: nat_add_distrib)
  qed
  then show "\<exists>r c. line_of_four b p r c 0 1" by blast
next
  assume "\<exists>r c. line_of_four b p r c 0 1"
  then obtain r c where l: "line_of_four b p r c 0 1" by blast
  from line_ends [OF l] have bounds: "0 \<le> r" "r < 6" "0 \<le> c" "c < 4"
    by (simp_all add: in_board_def)
  have "cell b (nat r) (nat c + i) = p" if "i < 4" for i
  proof -
    have "nat (c + int i * 1) = nat c + i" using bounds by (simp add: nat_add_distrib)
    with line_cells [OF l that] show ?thesis by simp
  qed
  moreover have "nat r < 6" "nat c < 4" using bounds by simp_all
  ultimately show "horizontal_win b p" unfolding horizontal_win_iff by blast
qed

lemma vertical_line: "vertical_win b p \<longleftrightarrow> (\<exists>r c. line_of_four b p r c 1 0)"
proof
  assume "vertical_win b p"
  then obtain col row where rc: "col < 7" "row < 3" and all: "\<forall>i<4. cell b (row + i) col = p"
    unfolding vertical_win_iff by blast
  have "line_of_four b p (int row) (int col) 1 0"
    unfolding line_of_four_def in_board_def
  proof (intro allI impI)
    fix i :: nat assume "i < 4"
    moreover have "nat (int row + int i * 1) = row + i" by simp
    ultimately show "(0 \<le> int row + int i * 1 \<and> int row + int i * 1 < 6 \<and>
        0 \<le> int col + int i * 0 \<and> int col + int i * 0 < 7) \<and>
        cell b (nat (int row + int i * 1)) (nat (int col + int i * 0)) = p"
      using rc all by (simp add: nat_add_distrib)
  qed
  then show "\<exists>r c. line_of_four b p r c 1 0" by blast
next
  assume "\<exists>r c. line_of_four b p r c 1 0"
  then obtain r c where l: "line_of_four b p r c 1 0" by blast
  from line_ends [OF l] have bounds: "0 \<le> r" "r < 3" "0 \<le> c" "c < 7"
    by (simp_all add: in_board_def)
  have "cell b (nat r + i) (nat c) = p" if "i < 4" for i
  proof -
    have "nat (r + int i * 1) = nat r + i" using bounds by (simp add: nat_add_distrib)
    with line_cells [OF l that] show ?thesis by simp
  qed
  moreover have "nat c < 7" "nat r < 3" using bounds by simp_all
  ultimately show "vertical_win b p" unfolding vertical_win_iff by blast
qed

lemma down_right_line:
  "(\<exists>row<3. \<exists>col<4. \<forall>i<4. cell b (row + i) (col + i) = p) \<longleftrightarrow>
   (\<exists>r c. line_of_four b p r c 1 1)"
proof
  assume "\<exists>row<3. \<exists>col<4. \<forall>i<4. cell b (row + i) (col + i) = p"
  then obtain row col where rc: "row < 3" "col < 4"
    and all: "\<forall>i<4. cell b (row + i) (col + i) = p"
    by blast
  have "line_of_four b p (int row) (int col) 1 1"
    unfolding line_of_four_def in_board_def
  proof (intro allI impI)
    fix i :: nat assume "i < 4"
    moreover have "nat (int row + int i * 1) = row + i" "nat (int col + int i * 1) = col + i"
      by simp_all
    ultimately show "(0 \<le> int row + int i * 1 \<and> int row + int i * 1 < 6 \<and>
        0 \<le> int col + int i * 1 \<and> int col + int i * 1 < 7) \<and>
        cell b (nat (int row + int i * 1)) (nat (int col + int i * 1)) = p"
      using rc all by (simp add: nat_add_distrib)
  qed
  then show "\<exists>r c. line_of_four b p r c 1 1" by blast
next
  assume "\<exists>r c. line_of_four b p r c 1 1"
  then obtain r c where l: "line_of_four b p r c 1 1" by blast
  from line_ends [OF l] have bounds: "0 \<le> r" "r < 3" "0 \<le> c" "c < 4"
    by (simp_all add: in_board_def)
  have "cell b (nat r + i) (nat c + i) = p" if "i < 4" for i
  proof -
    have "nat (r + int i * 1) = nat r + i" "nat (c + int i * 1) = nat c + i"
      using bounds by (simp_all add: nat_add_distrib)
    with line_cells [OF l that] show ?thesis by simp
  qed
  moreover have "nat r < 3" "nat c < 4" using bounds by simp_all
  ultimately show "\<exists>row<3. \<exists>col<4. \<forall>i<4. cell b (row + i) (col + i) = p" by blast
qed

lemma down_left_line:
  "(\<exists>row<3. \<exists>col<4. \<forall>i<4. cell b (row + i) (col + 3 - i) = p) \<longleftrightarrow>
   (\<exists>r c. line_of_four b p r c 1 (- 1))"
proof
  assume "\<exists>row<3. \<exists>col<4. \<forall>i<4. cell b (row + i) (col + 3 - i) = p"
  then obtain row col where rc: "row < 3" "col < 4"
    and all: "\<forall>i<4. cell b (row + i) (col + 3 - i) = p"
    by blast
  have "line_of_four b p (int row) (int (col + 3)) 1 (- 1)"
    unfolding line_of_four_def in_board_def
  proof (intro allI impI)
    fix i :: nat assume i: "i < 4"
    have "nat (int row + int i * 1) = row + i" by simp
    moreover have "nat (int (col + 3) + int i * (- 1)) = col + 3 - i" using i by simp
    moreover have "cell b (row + i) (col + 3 - i) = p" using all i by blast
    ultimately show "(0 \<le> int row + int i * 1 \<and> int row + int i * 1 < 6 \<and>
        0 \<le> int (col + 3) + int i * (- 1) \<and> int (col + 3) + int i * (- 1) < 7) \<and>
        cell b (nat (int row + int i * 1)) (nat (int (col + 3) + int i * (- 1))) = p"
      using rc i by simp
  qed
  then show "\<exists>r c. line_of_four b p r c 1 (- 1)" by blast
next
  assume "\<exists>r c. line_of_four b p r c 1 (- 1)"
  then obtain r c where l: "line_of_four b p r c 1 (- 1)" by blast
  from line_ends [OF l] have bounds: "0 \<le> r" "r < 3" "3 \<le> c" "c < 7"
    by (simp_all add: in_board_def)
  have "cell b (nat r + i) (nat (c - 3) + 3 - i) = p" if "i < 4" for i
  proof -
    have "nat (r + int i * 1) = nat r + i" using bounds by (simp add: nat_add_distrib)
    moreover have "nat (c + int i * (- 1)) = nat (c - 3) + 3 - i" using bounds that by simp
    ultimately show ?thesis using line_cells [OF l that] by simp
  qed
  moreover have "nat r < 3" "nat (c - 3) < 4" using bounds by simp_all
  ultimately show "\<exists>row<3. \<exists>col<4. \<forall>i<4. cell b (row + i) (col + 3 - i) = p" by blast
qed

lemma diagonal_line:
  "diagonal_win b p \<longleftrightarrow>
     (\<exists>r c. line_of_four b p r c 1 1) \<or> (\<exists>r c. line_of_four b p r c 1 (- 1))"
proof -
  have "diagonal_win b p \<longleftrightarrow>
          (\<exists>row<3. \<exists>col<4. \<forall>i<4. cell b (row + i) (col + i) = p) \<or>
          (\<exists>row<3. \<exists>col<4. \<forall>i<4. cell b (row + i) (col + 3 - i) = p)"
    unfolding diagonal_win_iff by blast
  then show ?thesis by (simp only: down_right_line down_left_line)
qed

text \<open>
  Claim C6. \<open>check_winner\<close> reports a win for a player exactly when the board holds
  four consecutive cells of that player's marker in a horizontal line, a vertical line or
  either diagonal, anywhere on the 6 by 7 board.
\<close>

theorem check_winner_iff_four_in_line: "check_winner b player \<longleftrightarrow> four_in_line b player"
  unfolding check_winner_def four_in_line_def horizontal_line vertical_line diagonal_line
  by blast

theorem check_winner_iff_four_in_line_witness:
  "check_winner (board (fst (make_move ex_game_pre_win 1 3))) 1 \<and>
   four_in_line (board (fst (make_move ex_game_pre_win 1 3))) 1 \<and>
   \<not> check_winner (board ex_game_pre_win) 1 \<and>
   \<not> four_in_line (board ex_game_pre_win) 1"
proof -
  have yes: "check_winner (board (fst (make_move ex_game_pre_win 1 3))) 1" by code_simp
  have no: "\<not> check_winner (board ex_game_pre_win) 1" by code_simp
  from yes no
    check_winner_iff_four_in_line [of "board (fst (make_move ex_game_pre_win 1 3))" 1]
    check_winner_iff_four_in_line [of "board ex_game_pre_win" 1]
  show ?thesis by blast
qed

section \<open>Claims about \<open>handle_move\<close> and \<open>register_player\<close>\<close>

lemma find_game_SomeD:
  "find_game gs pid = Some (gid, g) \<Longrightarrow> (gid, g) \<in> set gs \<and> pid \<in> set (map snd (players g))"
  by (induction gs) (auto split: if_splits)

lemma find_game_map_of:
  "distinct (map fst gs) \<Longrightarrow> find_game gs pid = Some (gid, g) \<Longrightarrow> map_of gs gid = Some g"
  using find_game_SomeD [of gs pid gid g] by simp

lemma player_number_of_in_keys:
  "player_number_of ps pid = Some n \<Longrightarrow> n \<in> fst ` set ps"
  by (induction ps) (auto split: if_splits)

lemma handle_move_cases:
  "(find_game (games srv) pid = None \<and>
      handle_move srv pid col = (srv, [], Inr (short_response ''Game not found''))) \<or>
   (\<exists>gid g. find_game (games srv) pid = Some (gid, g) \<and>
      player_number_of (players g) pid = None \<and>
      handle_move srv pid col = (srv, [], Inl ValueError)) \<or>
   (\<exists>gid g n. find_game (games srv) pid = Some (gid, g) \<and>
      player_number_of (players g) pid = Some n \<and> n \<noteq> current_player g \<and>
      handle_move srv pid col = (srv, [], Inr (short_response ''Not your turn''))) \<or>
   (\<exists>gid g m. find_game (games srv) pid = Some (gid, g) \<and>
      player_number_of (players g) pid = Some (current_player g) \<and>
      make_move g (current_player g) col = (g, False, m) \<and>
      handle_move srv pid col =
        (srv\<lparr>games := AList.update gid g (games srv)\<rparr>, [], Inr (move_response False m g))) \<or>
   (\<exists>gid g g' out r. find_game (games srv) pid = Some (gid, g) \<and>
      player_number_of (players g) pid = Some (current_player g) \<and>
      make_move g (current_player g) col = (g', True, ''Move successful'') \<and>
      handle_move srv pid col = (srv\<lparr>games := AList.update gid g' (games srv)\<rparr>, out, r) \<and>
      ((\<exists>e. r = Inl e) \<or> r = Inr (move_response True ''Move successful'' g')))"
proof (cases "find_game (games srv) pid")
  case None
  then show ?thesis by (simp add: handle_move_def)
next
  case (Some a)
  then obtain gid g where fg: "find_game (games srv) pid = Some (gid, g)" by (cases a) auto
  show ?thesis
  proof (cases "player_number_of (players g) pid")
    case None
    with fg show ?thesis by (simp add: handle_move_def)
  next
    case (Some n)
    show ?thesis
    proof (cases "n = current_player g")
      case False
      with fg Some show ?thesis by (simp add: handle_move_def)
    next
      case True
      obtain g' ok m where mm: "make_move g (current_player g) col = (g', ok, m)"
        by (cases "make_move g (current_player g) col") auto
      show ?thesis
      proof (cases ok)
        case False
        with mm have "make_move g (current_player g) col = (g', False, m)" by simp
        from make_move_failure [OF this] have "g' = g" by blast
        with fg Some True mm False show ?thesis by (simp add: handle_move_def)
      next
        case ok: True
        with mm have "make_move g (current_player g) col = (g', True, m)" by simp
        from make_move_success [OF this] have m: "m = ''Move successful''" by blast
        obtain out e where sa: "send_all (player_connections srv) (players g')
              (\<lambda>n. game_update g') = (out, e)"
          by (cases "send_all (player_connections srv) (players g') (\<lambda>n. game_update g')") auto
        show ?thesis
        proof (cases e)
          case None
          with fg Some True mm ok m sa show ?thesis by (simp add: handle_move_def)
        next
          case (Some err)
          with fg \<open>player_number_of (players g) pid = Some n\<close> True mm ok m sa
          show ?thesis by (simp add: handle_move_def)
        qed
      qed
    qed
  qed
qed


lemma game_of_update_same:
  "game_of (srv\<lparr>games := AList.update gid g' (games srv)\<rparr>) gid = Some g'"
  by (simp add: game_of_def update_conv')

lemma game_of_update_other:
  "gid' \<noteq> gid \<Longrightarrow>
   game_of (srv\<lparr>games := AList.update gid g' (games srv)\<rparr>) gid' = game_of srv gid'"
  by (simp add: game_of_def update_conv')



text \<open>
  Claim C5. A move request from a participant whose seat in the game is not the game's
  \<open>current_player\<close> is answered with \<open>success = False\<close>, message "Not your turn";
  nothing is broadcast and the server state (so the board, the turn, \<open>game_over\<close> and
  the winner of every game) is unchanged.
\<close>

theorem handle_move_not_your_turn:
  assumes "find_game (games srv) player_id = Some (gid, g)"
    and "player_number_of (players g) player_id = Some n"
    and "n \<noteq> current_player g"
  shows "handle_move srv player_id column =
           (srv, [], Inr (short_response ''Not your turn''))"
  using assms by (simp add: handle_move_def)

theorem handle_move_not_your_turn_witness:
  "find_game (games ex_srv2) ''p2'' = Some (''g1'', ex_game_start) \<and>
   player_number_of (players ex_game_start) ''p2'' = Some 2 \<and>
   2 \<noteq> current_player ex_game_start \<and>
   handle_move ex_srv2 ''p2'' 4 = (ex_srv2, [], Inr (short_response ''Not your turn''))"
proof -
  have a: "find_game (games ex_srv2) ''p2'' = Some (''g1'', ex_game_start)" by code_simp
  have b: "player_number_of (players ex_game_start) ''p2'' = Some 2" by code_simp
  have c: "2 \<noteq> current_player ex_game_start" by code_simp
  from handle_move_not_your_turn [OF a b c] a b c show ?thesis by blast
qed

text \<open>
  Claim C9, as stated, fails: the responses "Not your turn" and "Game not found" hold only
  the fields \<open>success\<close> and \<open>message\<close>.
\<close>

theorem response_fields_counterexample:
  "ret_of (handle_move ex_srv2 ''p2'' 4) = Inr (short_response ''Not your turn'') \<and>
   \<not> has_all_fields (short_response ''Not your turn'') \<and>
   ret_of (handle_move ex_srv2 ''p3'' 4) = Inr (short_response ''Game not found'') \<and>
   \<not> has_all_fields (short_response ''Game not found'')"
  by code_simp

lemma short_response_fields:
  "map fst (short_response x) = [''success'', ''message'']" "\<not> has_all_fields (short_response x)"
  by (simp_all add: short_response_def has_all_fields_def all_fields_def)

lemma move_response_fields:
  "map fst (move_response ok x g) = all_fields" "has_all_fields (move_response ok x g)"
  by (simp_all add: move_response_def has_all_fields_def all_fields_def)

text \<open>
  Claim C9, amended. A move response holds all six fields \<open>success\<close>, \<open>message\<close>,
  \<open>board\<close>, \<open>current_player\<close>, \<open>game_over\<close>, \<open>winner\<close> exactly when the requester
  is seated in a game and it is that seat's turn (the move then succeeded, or failed with
  "Invalid column" or "Column is full"); otherwise ("Not your turn", "Game not found") it
  holds exactly \<open>success\<close> and \<open>message\<close>.
\<close>

theorem handle_move_response_fields:
  assumes "ret_of (handle_move srv player_id column) = Inr m"
  shows "map fst m = (if on_turn srv player_id then all_fields else [''success'', ''message'']) \<and>
         (has_all_fields m \<longleftrightarrow> on_turn srv player_id)"
  using handle_move_cases [of srv player_id column] assms
  by (auto simp: ret_of_def on_turn_def short_response_fields move_response_fields)

theorem handle_move_response_fields_witness:
  "ret_of (handle_move ex_srv2 ''p1'' 9) = Inr (move_response False ''Invalid column'' ex_game_start) \<and>
   on_turn ex_srv2 ''p1'' \<and>
   has_all_fields (move_response False ''Invalid column'' ex_game_start) \<and>
   ret_of (handle_move ex_srv2 ''p2'' 4) = Inr (short_response ''Not your turn'') \<and>
   \<not> on_turn ex_srv2 ''p2'' \<and>
   map fst (short_response ''Not your turn'') = [''success'', ''message'']"
proof -
  have a: "ret_of (handle_move ex_srv2 ''p1'' 9) =
             Inr (move_response False ''Invalid column'' ex_game_start)" by code_simp
  have b: "on_turn ex_srv2 ''p1''" by code_simp
  have c: "ret_of (handle_move ex_srv2 ''p2'' 4) = Inr (short_response ''Not your turn'')"
    by code_simp
  have d: "\<not> on_turn ex_srv2 ''p2''" by code_simp
  from handle_move_response_fields [OF a] handle_move_response_fields [OF c] a b c d
  show ?thesis by simp
qed






lemma cell_set_cell_changed:
  assumes "cell (set_cell b r c v) r' c' \<noteq> cell b r' c'"
  shows "r' = r \<and> c' = c \<and> cell (set_cell b r c v) r' c' = v"
proof -
  have rc: "r' = r \<and> c' = c"
    using assms cell_set_cell_other [of r' c' r c b v] by blast
  have "r < length b"
    using assms rc by (cases "r < length b") (auto simp: cell_def set_cell_def list_update_beyond)
  moreover have "c < length (b ! r)"
    using assms rc \<open>r < length b\<close>
    by (cases "c < length (b ! r)") (auto simp: cell_def set_cell_def list_update_beyond)
  ultimately have "cell (set_cell b r c v) r c = v"
    by (simp add: cell_def set_cell_def)
  with rc show ?thesis by simp
qed

lemma cells_only_filled_refl: "cells_only_filled g g"
  by (simp add: cells_only_filled_def)

lemma cells_only_filled_trans:
  assumes "cells_only_filled g1 g2" "cells_only_filled g2 g3"
  shows "cells_only_filled g1 g3"
  unfolding cells_only_filled_def
proof (intro conjI allI impI)
  show "players g3 = players g1"
    using assms by (simp add: cells_only_filled_def)
next
  fix r c
  assume diff: "cell (board g3) r c \<noteq> cell (board g1) r c"
  have p: "players g2 = players g1" using assms(1) by (simp add: cells_only_filled_def)
  have s12: "cell (board g2) r c \<noteq> cell (board g1) r c \<Longrightarrow>
               cell (board g1) r c = 0 \<and> cell (board g2) r c \<in> fst ` set (players g1)"
    using assms(1) by (simp add: cells_only_filled_def)
  have s23: "cell (board g3) r c \<noteq> cell (board g2) r c \<Longrightarrow>
               cell (board g2) r c = 0 \<and> cell (board g3) r c \<in> fst ` set (players g1)"
    using assms(2) p by (simp add: cells_only_filled_def)
  show "cell (board g1) r c = 0"
    using diff s12 s23 by (cases "cell (board g2) r c = cell (board g1) r c") auto
  show "cell (board g3) r c \<in> fst ` set (players g1)"
    using diff s12 s23 by (cases "cell (board g3) r c = cell (board g2) r c") auto
qed

lemma make_move_cells_only_filled:
  assumes "make_move g p col = (g', ok, m)" "p \<in> fst ` set (players g)"
  shows "cells_only_filled g g'"
proof (cases ok)
  case False
  with assms(1) have "make_move g p col = (g', False, m)" by simp
  from make_move_failure [OF this] show ?thesis by (simp add: cells_only_filled_refl)
next
  case True
  with assms(1) have "make_move g p col = (g', True, m)" by simp
  from make_move_success [OF this] obtain r
    where row: "find_empty_row (board g) (nat col) rows_bottom_up = Some r"
      and brd: "board g' = set_cell (board g) r (nat col) p"
      and pl: "players g' = players g"
    by blast
  from find_empty_row_lowest [OF row] have empty: "cell (board g) r (nat col) = 0" by blast
  show ?thesis
    unfolding cells_only_filled_def
  proof (intro conjI allI impI)
    show "players g' = players g" by (rule pl)
  next
    fix r' c'
    assume "cell (board g') r' c' \<noteq> cell (board g) r' c'"
    with brd have "cell (set_cell (board g) r (nat col) p) r' c' \<noteq> cell (board g) r' c'"
      by simp
    from cell_set_cell_changed [OF this]
    have at: "r' = r" "c' = nat col" and val: "cell (set_cell (board g) r (nat col) p) r' c' = p"
      by blast+
    from at empty show "cell (board g) r' c' = 0" by simp
    from val brd have "cell (board g') r' c' = p" by simp
    with assms(2) show "cell (board g') r' c' \<in> fst ` set (players g)" by simp
  qed
qed

lemma find_game_key:
  "find_game gs pid = Some (gid, g) \<Longrightarrow> gid \<in> set (map fst gs)"
  using find_game_SomeD [of gs pid gid g] by force

lemma handle_move_keys:
  "map fst (games (srv_of (handle_move srv pid col))) = map fst (games srv)"
  using handle_move_cases [of srv pid col]
  by (auto simp: srv_of_def update_keys dest: find_game_key)

lemma handle_move_step:
  assumes "distinct (map fst (games srv))" "game_of srv gid = Some g"
  shows "\<exists>g'. game_of (srv_of (handle_move srv pid col)) gid = Some g' \<and> cells_only_filled g g'"
proof -
  from handle_move_cases [of srv pid col]
  consider
    (unchanged) "srv_of (handle_move srv pid col) = srv"
  | (made) gid0 g0 g0' ok m where "find_game (games srv) pid = Some (gid0, g0)"
      "player_number_of (players g0) pid = Some (current_player g0)"
      "make_move g0 (current_player g0) col = (g0', ok, m)"
      "srv_of (handle_move srv pid col) = srv\<lparr>games := AList.update gid0 g0' (games srv)\<rparr>"
    by (auto simp: srv_of_def) blast+
  then show ?thesis
  proof cases
    case unchanged
    with assms(2) show ?thesis by (auto simp: cells_only_filled_refl)
  next
    case made
    show ?thesis
    proof (cases "gid = gid0")
      case False
      with made(4) assms(2) show ?thesis
        by (auto simp: game_of_update_other cells_only_filled_refl)
    next
      case True
      from find_game_map_of [OF assms(1) made(1)] assms(2) True
      have "g0 = g" by (simp add: game_of_def)
      from player_number_of_in_keys [OF made(2)]
      have "current_player g0 \<in> fst ` set (players g0)" .
      from make_move_cells_only_filled [OF made(3) this] \<open>g0 = g\<close>
      have "cells_only_filled g g0'" by simp
      moreover have "game_of (srv_of (handle_move srv pid col)) gid = Some g0'"
        using made(4) True by (simp add: game_of_update_same)
      ultimately show ?thesis by blast
    qed
  qed
qed

lemma handle_moves_keys: "map fst (games (handle_moves srv ms)) = map fst (games srv)"
  by (induction srv ms rule: handle_moves.induct) (simp_all add: handle_move_keys)

lemma handle_moves_append:
  "handle_moves srv (ms1 @ ms2) = handle_moves (handle_moves srv ms1) ms2"
  by (induction srv ms1 rule: handle_moves.induct) simp_all

lemma handle_moves_cells:
  assumes "distinct (map fst (games srv))" "game_of srv gid = Some g"
  shows "\<exists>g'. game_of (handle_moves srv ms) gid = Some g' \<and> cells_only_filled g g'"
  using assms
proof (induction srv ms arbitrary: g rule: handle_moves.induct)
  case (1 srv)
  then show ?case by (auto simp: cells_only_filled_refl)
next
  case (2 srv pid col ms)
  from handle_move_step [OF "2.prems"] obtain g1
    where g1: "game_of (srv_of (handle_move srv pid col)) gid = Some g1"
      and f1: "cells_only_filled g g1"
    by blast
  have "distinct (map fst (games (srv_of (handle_move srv pid col))))"
    using "2.prems"(1) by (simp add: handle_move_keys)
  from "2.IH" [OF this g1] obtain g' where
    "game_of (handle_moves (srv_of (handle_move srv pid col)) ms) gid = Some g'"
    "cells_only_filled g1 g'"
    by blast
  with f1 show ?case by (auto intro: cells_only_filled_trans)
qed

text \<open>
  Claim C8. Along any run of move submissions, accepted or rejected, between any earlier
  state (after \<open>ms1\<close>) and any later state (after \<open>ms1 @ ms2\<close>) of a game whose seats
  are numbered 1 and 2: a cell that is nonzero keeps its value, and a cell whose value
  differs was 0 and now holds 1 or 2. So every cell changes at most once, from empty to a
  seat marker.
\<close>

theorem cells_never_overwritten:
  assumes "distinct (map fst (games srv))"
    and "game_of srv gid = Some g"
    and "fst ` set (players g) \<subseteq> {1, 2}"
  shows "\<exists>g1 g2. game_of (handle_moves srv ms1) gid = Some g1 \<and>
           game_of (handle_moves srv (ms1 @ ms2)) gid = Some g2 \<and>
           (\<forall>r c. cell (board g1) r c \<noteq> 0 \<longrightarrow> cell (board g2) r c = cell (board g1) r c) \<and>
           (\<forall>r c. cell (board g2) r c \<noteq> cell (board g1) r c \<longrightarrow>
                cell (board g1) r c = 0 \<and>
                (cell (board g2) r c = 1 \<or> cell (board g2) r c = 2))"
proof -
  from handle_moves_cells [OF assms(1,2)] obtain g1
    where g1: "game_of (handle_moves srv ms1) gid = Some g1" and f1: "cells_only_filled g g1"
    by blast
  have "distinct (map fst (games (handle_moves srv ms1)))"
    using assms(1) by (simp add: handle_moves_keys)
  from handle_moves_cells [OF this g1] obtain g2
    where g2: "game_of (handle_moves (handle_moves srv ms1) ms2) gid = Some g2"
      and f2: "cells_only_filled g1 g2"
    by blast
  have seats: "fst ` set (players g1) \<subseteq> {1, 2}"
    using f1 assms(3) by (simp add: cells_only_filled_def)
  have "\<forall>r c. cell (board g1) r c \<noteq> 0 \<longrightarrow> cell (board g2) r c = cell (board g1) r c"
    using f2 unfolding cells_only_filled_def by metis
  moreover have "\<forall>r c. cell (board g2) r c \<noteq> cell (board g1) r c \<longrightarrow>
                cell (board g1) r c = 0 \<and>
                (cell (board g2) r c = 1 \<or> cell (board g2) r c = 2)"
    using f2 seats unfolding cells_only_filled_def by blast
  ultimately show ?thesis using g1 g2 by (auto simp: handle_moves_append)
qed

theorem cells_never_overwritten_witness:
  "distinct (map fst (games ex_srv2)) \<and>
   game_of ex_srv2 ''g1'' = Some ex_game_start \<and>
   fst ` set (players ex_game_start) \<subseteq> {1, 2} \<and>
   (\<exists>g1 g2. game_of (handle_moves ex_srv2 ex_moves_pre_win) ''g1'' = Some g1 \<and>
      game_of (handle_moves ex_srv2 (ex_moves_pre_win @ [(''p1'', 3), (''p2'', 6), (''p2'', 0)]))
        ''g1'' = Some g2 \<and>
      (\<forall>r c. cell (board g1) r c \<noteq> 0 \<longrightarrow> cell (board g2) r c = cell (board g1) r c) \<and>
      (\<forall>r c. cell (board g2) r c \<noteq> cell (board g1) r c \<longrightarrow>
           cell (board g1) r c = 0 \<and>
           (cell (board g2) r c = 1 \<or> cell (board g2) r c = 2)))"
proof -
  have a: "distinct (map fst (games ex_srv2))" by code_simp
  have b: "game_of ex_srv2 ''g1'' = Some ex_game_start" by code_simp
  have c: "fst ` set (players ex_game_start) \<subseteq> {1, 2}" by code_simp
  from cells_never_overwritten [OF a b c, of ex_moves_pre_win "[(''p1'', 3), (''p2'', 6), (''p2'', 0)]"]
    a b c
  show ?thesis by blast
qed

text \<open>
  Claim C7, as stated, fails in its last part: joining does not set the turn. The first
  player may move while waiting (\<open>handle_move\<close> does not ask for a second player), and
  the session then starts with \<open>current_player = 2\<close>.
\<close>

theorem join_turn_counterexample:
  "game_waiting ex_srv_moved_alone = Some ''g1'' \<and>
   ret_of (register_player ex_srv_moved_alone 2 ''p2'' ''g2'') = Inr ''p2'' \<and>
   game_waiting (srv_of (register_player ex_srv_moved_alone 2 ''p2'' ''g2'')) = None \<and>
   map_option (\<lambda>g. (players g, current_player g))
     (game_of (srv_of (register_player ex_srv_moved_alone 2 ''p2'' ''g2'')) ''g1'') =
     Some ([(1, ''p1''), (2, ''p2'')], 2)"
  by code_simp

text \<open>
  Claim C7, amended. A join when no game is waiting creates a game under the new id with
  the joiner as seat 1 and \<open>current_player = 1\<close>, makes it the waiting game, and sends
  the joiner status "waiting" with player number 1. A join when a game is waiting whose
  only seat is seat 1, held by another participant who still has a connection entry,
  makes the joiner seat 2, sends status "started" to seat 1 with player number 1 and to
  the joiner with player number 2, and clears the waiting slot; the game's turn and board
  are left as they were (the turn is seat 1 unless the first player has already moved).
\<close>

theorem register_player_matchmaking:
  "(game_waiting srv = None \<longrightarrow>
      (\<exists>srv' g'. register_player srv sock player_id new_game_id =
           (srv', [(sock, game_status ''waiting'' 1 new_game_id)], Inr player_id) \<and>
         game_waiting srv' = Some new_game_id \<and>
         game_of srv' new_game_id = Some g' \<and>
         players g' = [(1, player_id)] \<and> current_player g' = 1 \<and>
         game_id g' = new_game_id)) \<and>
   (\<forall>w g p1 sock1.
      game_waiting srv = Some w \<and> game_of srv w = Some g \<and> players g = [(1, p1)] \<and>
      map_of (player_connections srv) p1 = Some sock1 \<and> p1 \<noteq> player_id \<longrightarrow>
      (\<exists>srv' g'. register_player srv sock player_id new_game_id =
           (srv', [(sock1, game_status ''started'' 1 (game_id g)),
                   (sock, game_status ''started'' 2 (game_id g))], Inr player_id) \<and>
         game_waiting srv' = None \<and>
         game_of srv' w = Some g' \<and>
         players g' = [(1, p1), (2, player_id)] \<and>
         current_player g' = current_player g \<and> board g' = board g))"
proof (intro conjI impI allI)
  assume "game_waiting srv = None"
  then show "\<exists>srv' g'. register_player srv sock player_id new_game_id =
           (srv', [(sock, game_status ''waiting'' 1 new_game_id)], Inr player_id) \<and>
         game_waiting srv' = Some new_game_id \<and>
         game_of srv' new_game_id = Some g' \<and>
         players g' = [(1, player_id)] \<and> current_player g' = 1 \<and>
         game_id g' = new_game_id"
    by (simp add: register_player_def Let_def game_of_def update_conv' Connect4Game_init_def)
next
  fix w g p1 sock1
  assume h: "game_waiting srv = Some w \<and> game_of srv w = Some g \<and> players g = [(1, p1)] \<and>
      map_of (player_connections srv) p1 = Some sock1 \<and> p1 \<noteq> player_id"
  then show "\<exists>srv' g'. register_player srv sock player_id new_game_id =
           (srv', [(sock1, game_status ''started'' 1 (game_id g)),
                   (sock, game_status ''started'' 2 (game_id g))], Inr player_id) \<and>
         game_waiting srv' = None \<and>
         game_of srv' w = Some g' \<and>
         players g' = [(1, p1), (2, player_id)] \<and>
         current_player g' = current_player g \<and> board g' = board g"
    by (simp add: register_player_def Let_def game_of_def update_conv')
qed


theorem register_player_matchmaking_witness:
  "game_waiting Connect4Server_init = None \<and>
   (\<exists>srv' g'. register_player Connect4Server_init 1 ''p1'' ''g1'' =
        (srv', [(1, game_status ''waiting'' 1 ''g1'')], Inr ''p1'') \<and>
      game_waiting srv' = Some ''g1'' \<and> game_of srv' ''g1'' = Some g' \<and>
      players g' = [(1, ''p1'')] \<and> current_player g' = 1 \<and> game_id g' = ''g1'') \<and>
   game_waiting ex_srv1 = Some ''g1'' \<and> game_of ex_srv1 ''g1'' = Some ex_game_waiting \<and>
   players ex_game_waiting = [(1, ''p1'')] \<and>
   map_of (player_connections ex_srv1) ''p1'' = Some 1 \<and> ''p1'' \<noteq> ''p2'' \<and>
   (\<exists>srv' g'. register_player ex_srv1 2 ''p2'' ''g2'' =
        (srv', [(1, game_status ''started'' 1 (game_id ex_game_waiting)),
                (2, game_status ''started'' 2 (game_id ex_game_waiting))], Inr ''p2'') \<and>
      game_waiting srv' = None \<and> game_of srv' ''g1'' = Some g' \<and>
      players g' = [(1, ''p1''), (2, ''p2'')] \<and>
      current_player g' = current_player ex_game_waiting \<and>
      board g' = board ex_game_waiting)"
proof -
  have a: "game_waiting Connect4Server_init = None" by code_simp
  have b: "game_waiting ex_srv1 = Some ''g1'' \<and> game_of ex_srv1 ''g1'' = Some ex_game_waiting \<and>
      players ex_game_waiting = [(1, ''p1'')] \<and>
      map_of (player_connections ex_srv1) ''p1'' = Some 1 \<and> ''p1'' \<noteq> ''p2''"
    by code_simp
  from register_player_matchmaking [of Connect4Server_init 1 "''p1''" "''g1''"] a
  have first: "\<exists>srv' g'. register_player Connect4Server_init 1 ''p1'' ''g1'' =
        (srv', [(1, game_status ''waiting'' 1 ''g1'')], Inr ''p1'') \<and>
      game_waiting srv' = Some ''g1'' \<and> game_of srv' ''g1'' = Some g' \<and>
      players g' = [(1, ''p1'')] \<and> current_player g' = 1 \<and> game_id g' = ''g1''"
    by blast
  from register_player_matchmaking [of ex_srv1 2 "''p2''" "''g2''"] b
  have second: "\<exists>srv' g'. register_player ex_srv1 2 ''p2'' ''g2'' =
        (srv', [(1, game_status ''started'' 1 (game_id ex_game_waiting)),
                (2, game_status ''started'' 2 (game_id ex_game_waiting))], Inr ''p2'') \<and>
      game_waiting srv' = None \<and> game_of srv' ''g1'' = Some g' \<and>
      players g' = [(1, ''p1''), (2, ''p2'')] \<and>
      current_player g' = current_player ex_game_waiting \<and>
      board g' = board ex_game_waiting"
    by blast
  from a b first second show ?thesis by blast
qed

section \<open>Invariant of the reachable states\<close>

text \<open>
  Every reachable server state is well formed, so the side conditions used above (distinct
  game ids, boards of six rows of seven cells, seats numbered 1 and 2) hold wherever the
  program can get.
\<close>

lemma set_update_subset: "set (AList.update k v al) \<subseteq> insert (k, v) (set al)"
  by (induction al) auto

lemma wf_server_update:
  assumes "wf_server srv" "wf_game g" "game_id g = gid"
  shows "distinct (map fst (AList.update gid g (games srv)))"
    and "list_all (\<lambda>(gid, g). wf_game g \<and> game_id g = gid) (AList.update gid g (games srv))"
proof -
  show "distinct (map fst (AList.update gid g (games srv)))"
    using assms(1) by (simp add: wf_server_def distinct_update)
  have "\<forall>x \<in> set (games srv). case x of (gid, g) \<Rightarrow> wf_game g \<and> game_id g = gid"
    using assms(1) by (simp add: wf_server_def list_all_iff)
  with assms(2,3) set_update_subset [of gid g "games srv"]
  show "list_all (\<lambda>(gid, g). wf_game g \<and> game_id g = gid) (AList.update gid g (games srv))"
    unfolding list_all_iff by blast
qed

lemma wf_server_stored:
  assumes "wf_server srv" "(gid, g) \<in> set (games srv)"
  shows "wf_game g" "game_id g = gid"
  using assms by (auto simp: wf_server_def list_all_iff)

lemma wf_server_replace:
  assumes "wf_server srv" "(gid, g) \<in> set (games srv)" "wf_game g'" "game_id g' = game_id g"
  shows "wf_server (srv\<lparr>games := AList.update gid g' (games srv)\<rparr>)"
proof -
  have id: "game_id g' = gid" using wf_server_stored(2) [OF assms(1,2)] assms(4) by simp
  have keys: "fst ` set (AList.update gid g' (games srv)) = fst ` set (games srv)"
    using assms(2) by (force simp: dom_update)
  have "case game_waiting srv of None \<Rightarrow> True
        | Some w \<Rightarrow> w \<in> set (map fst (AList.update gid g' (games srv)))"
    using assms(1) keys by (auto simp: wf_server_def split: option.splits)
  with wf_server_update [OF assms(1,3) id] show ?thesis
    by (simp add: wf_server_def split: option.splits)
qed

lemma wf_server_init: "wf_server Connect4Server_init"
  by (simp add: wf_server_def Connect4Server_init_def)

lemma wf_board_init: "wf_board (replicate 6 (replicate 7 0))"
  by (simp add: wf_board_def list_all_iff)

lemma make_move_wf_game:
  assumes "make_move g p col = (g', ok, m)" "wf_game g"
  shows "wf_game g' \<and> game_id g' = game_id g"
proof (cases ok)
  case False
  with assms(1) have "make_move g p col = (g', False, m)" by simp
  from make_move_failure [OF this] assms(2) show ?thesis by simp
next
  case True
  with assms(1) have "make_move g p col = (g', True, m)" by simp
  from make_move_success [OF this] assms(2) show ?thesis
    by (auto simp: wf_game_def wf_board_set_cell)
qed

lemma wf_server_handle_move:
  assumes "wf_server srv"
  shows "wf_server (srv_of (handle_move srv pid col))"
proof -
  from handle_move_cases [of srv pid col]
  consider
    (unchanged) "srv_of (handle_move srv pid col) = srv"
  | (made) gid0 g0 g0' ok m where "find_game (games srv) pid = Some (gid0, g0)"
      "make_move g0 (current_player g0) col = (g0', ok, m)"
      "srv_of (handle_move srv pid col) = srv\<lparr>games := AList.update gid0 g0' (games srv)\<rparr>"
    by (auto simp: srv_of_def) blast+
  then show ?thesis
  proof cases
    case unchanged
    with assms show ?thesis by simp
  next
    case made
    from find_game_SomeD [OF made(1)] have mem: "(gid0, g0) \<in> set (games srv)" by blast
    from make_move_wf_game [OF made(2) wf_server_stored(1) [OF assms mem]]
    have "wf_game g0'" "game_id g0' = game_id g0" by blast+
    from wf_server_replace [OF assms mem this] made(3) show ?thesis by simp
  qed
qed

lemma wf_server_conns:
  "wf_server srv \<Longrightarrow> wf_server (srv\<lparr>player_connections := c\<rparr>)"
  by (simp add: wf_server_def split: option.splits)

lemma wf_server_waiting_None:
  "wf_server srv \<Longrightarrow> wf_server (srv\<lparr>game_waiting := None\<rparr>)"
  by (simp add: wf_server_def)

lemma wf_game_seat2:
  assumes "wf_game g"
  shows "wf_game (g\<lparr>players := AList.update 2 pid (players g)\<rparr>)"
proof -
  have "\<forall>x \<in> set (players g). case x of (n, p) \<Rightarrow> n = 1 \<or> n = 2"
    using assms by (simp add: wf_game_def list_all_iff)
  with set_update_subset [of 2 pid "players g"]
  have "\<forall>x \<in> set (AList.update 2 pid (players g)). case x of (n, p) \<Rightarrow> n = 1 \<or> n = 2"
    by blast
  with assms show ?thesis by (simp add: wf_game_def list_all_iff)
qed

lemma wf_server_register_player:
  assumes "wf_server srv"
  shows "wf_server (srv_of (register_player srv sock pid gid))"
proof (cases "game_waiting srv")
  case None
  let ?g = "(Connect4Game_init gid)\<lparr>players := AList.update 1 pid []\<rparr>"
  have g: "wf_game ?g" "game_id ?g = gid"
    by (simp_all add: wf_game_def Connect4Game_init_def wf_board_init)
  have "gid \<in> set (map fst (AList.update gid ?g (games srv)))"
    by (simp add: dom_update)
  with wf_server_update [OF assms g] None show ?thesis
    by (simp add: register_player_def srv_of_def Let_def wf_server_def)
next
  case (Some w)
  let ?srv1 = "srv\<lparr>player_connections := AList.update pid sock (player_connections srv)\<rparr>"
  have wf1: "wf_server ?srv1" using assms by (rule wf_server_conns)
  show ?thesis
  proof (cases "map_of (games srv) w")
    case None
    with Some wf1 show ?thesis by (simp add: register_player_def srv_of_def)
  next
    case (Some g0)
    then have mem: "(w, g0) \<in> set (games ?srv1)" by (simp add: map_of_SomeD)
    let ?g = "g0\<lparr>players := AList.update 2 pid (players g0)\<rparr>"
    have "wf_game ?g" using wf_server_stored(1) [OF wf1 mem] by (rule wf_game_seat2)
    moreover have "game_id ?g = game_id g0" by simp
    ultimately have wf2: "wf_server (?srv1\<lparr>games := AList.update w ?g (games ?srv1)\<rparr>)"
      by (rule wf_server_replace [OF wf1 mem])
    obtain out e where sa: "send_all (AList.update pid sock (player_connections srv))
        (AList.update 2 pid (players g0)) (\<lambda>n. game_status ''started'' n (game_id g0)) = (out, e)"
      by (cases "send_all (AList.update pid sock (player_connections srv))
        (AList.update 2 pid (players g0)) (\<lambda>n. game_status ''started'' n (game_id g0))") auto
    show ?thesis
    proof (cases e)
      case None
      with \<open>game_waiting srv = Some w\<close> Some sa wf_server_waiting_None [OF wf2]
      show ?thesis by (simp add: register_player_def srv_of_def Let_def)
    next
      case (Some err)
      with \<open>game_waiting srv = Some w\<close> \<open>map_of (games srv) w = Some g0\<close> sa wf2
      show ?thesis by (simp add: register_player_def srv_of_def Let_def)
    qed
  qed
qed

lemma reachable_wf_server: "reachable srv \<Longrightarrow> wf_server srv"
proof (induction rule: reachable.induct)
  case start
  show ?case by (rule wf_server_init)
next
  case (join srv sock pid gid)
  then show ?case by (simp add: wf_server_register_player)
next
  case (move srv pid col)
  then show ?case by (simp add: wf_server_handle_move)
next
  case (leave srv pid)
  then show ?case by (simp add: disconnect_def wf_server_conns)
qed

lemma reachable_handle_moves: "reachable srv \<Longrightarrow> reachable (handle_moves srv ms)"
  by (induction srv ms rule: handle_moves.induct) (simp_all add: reachable.move)

lemma reachable_distinct_games: "reachable srv \<Longrightarrow> distinct (map fst (games srv))"
  using reachable_wf_server [of srv] by (simp add: wf_server_def)

lemma reachable_game:
  assumes "reachable srv" "game_of srv gid = Some g"
  shows "wf_board (board g)" and "fst ` set (players g) \<subseteq> {1, 2}" and "game_id g = gid"
proof -
  from assms(2) have "(gid, g) \<in> set (games srv)" by (simp add: game_of_def map_of_SomeD)
  from wf_server_stored [OF reachable_wf_server [OF assms(1)] this]
  have wf: "wf_game g" and "game_id g = gid" by blast+
  then show "game_id g = gid" by simp
  from wf show "wf_board (board g)" by (simp add: wf_game_def)
  from wf show "fst ` set (players g) \<subseteq> {1, 2}" by (auto simp: wf_game_def list_all_iff)
qed

lemma ex_srv2_reachable: "reachable ex_srv2"
  unfolding ex_srv2_def ex_srv1_def by (intro reachable.join reachable.start)

lemma ex_srv_won_reachable: "reachable ex_srv_won"
  unfolding ex_srv_won_def ex_srv_pre_win_def
  by (intro reachable.move reachable_handle_moves ex_srv2_reachable)

lemma ex_srv_moved_alone_reachable: "reachable ex_srv_moved_alone"
  unfolding ex_srv_moved_alone_def ex_srv1_def
  by (intro reachable.move reachable.join reachable.start)

end
